theory Spec2Isabelle
  imports Complex_Main
begin

section \<open>Data model\<close>

text \<open>
  Timestamps. A Python \<open>datetime\<close> is a point on the time line with microsecond
  resolution, and a \<open>timedelta\<close> is a whole number of microseconds. Both are modelled as
  integers counting microseconds (a \<open>datetime\<close> from a fixed epoch). The two clocks of the
  program, \<open>datetime.utcnow()\<close> of the worker and \<open>func.now()\<close> of the database server,
  are inputs of the model.
\<close>

type_synonym datetime = int
type_synonym timedelta = int

text \<open>\<open>app/models/api_monitor.py\<close>: the enum \<open>HTTPMethod\<close> and the table \<open>api_monitors\<close>.\<close>

datatype HTTPMethod = GET | POST | PUT | PATCH | DELETE | HEAD | OPTIONS

fun method_value :: "HTTPMethod \<Rightarrow> string" where
  "method_value GET = ''GET''"
| "method_value POST = ''POST''"
| "method_value PUT = ''PUT''"
| "method_value PATCH = ''PATCH''"
| "method_value DELETE = ''DELETE''"
| "method_value HEAD = ''HEAD''"
| "method_value OPTIONS = ''OPTIONS''"

record APIMonitor =
  monitor_pk :: int
  user_id :: int
  name :: string
  url :: string
  http_method :: HTTPMethod
  headers :: "(string \<times> string) list option"
  expected_status :: int
  check_interval :: int
  timeout :: int
  is_active :: bool

text \<open>\<open>app/models/incident.py\<close>: a row of the table \<open>incidents\<close>.\<close>

record Incident =
  incident_pk :: int
  monitor_id :: int
  started_at :: datetime
  resolved_at :: "datetime option"
  duration :: "int option"
  alert_sent :: bool

text \<open>
  The dictionary returned by \<open>check_api\<close>, with its four keys. The response time is a
  float in the source; it is kept as the rational number the environment reports.
\<close>

record check_result =
  status_code :: "int option"
  response_time :: "rat option"
  is_up :: bool
  error_message :: "string option"

text \<open>\<open>app/models/health_check.py\<close>: a row of the table \<open>health_checks\<close>.\<close>

record HealthCheck =
  health_check_pk :: int
  hc_monitor_id :: int
  hc_status_code :: "int option"
  hc_response_time :: "rat option"
  hc_is_up :: bool
  hc_error_message :: "string option"
  checked_at :: datetime

text \<open>
  The database as the worker sees it: the three tables, and for the two tables the worker
  inserts into the last primary key their sequence has issued.
\<close>

record database =
  api_monitors :: "APIMonitor list"
  health_checks :: "HealthCheck list"
  incidents :: "Incident list"
  health_checks_seq :: int
  incidents_seq :: int

definition empty_database :: database where
  "empty_database =
     \<lparr>api_monitors = [], health_checks = [], incidents = [],
      health_checks_seq = 0, incidents_seq = 0\<rparr>"

text \<open>
  The clock readings of one pass through the result handling of one monitor:
  \<open>func_now\<close> is the server default \<open>func.now()\<close> of an inserted row, \<open>utcnow\<close> is
  \<open>datetime.utcnow()\<close> in \<open>handle_incident\<close>.
\<close>

record clocks =
  func_now :: datetime
  utcnow :: datetime

section \<open>The probe: \<open>HealthCheckExecutor.check_api\<close>\<close>

text \<open>
  \<open>httpx.Timeout(default, connect=c)\<close> sets the connection-establishment timeout to \<open>c\<close>
  and the three other timeouts (read, write, pool) to the default.
\<close>

record Timeout =
  connect_timeout :: rat
  read_timeout :: rat
  write_timeout :: rat
  pool_timeout :: rat

definition httpx_Timeout :: "rat \<Rightarrow> rat \<Rightarrow> Timeout" where
  "httpx_Timeout dflt c = \<lparr>connect_timeout = c, read_timeout = dflt, write_timeout = dflt, pool_timeout = dflt\<rparr>"

text \<open>The arguments of \<open>self.client.request(...)\<close>.\<close>

record http_request =
  req_method :: string
  req_url :: string
  req_headers :: "(string \<times> string) list"
  req_timeout :: Timeout

text \<open>
  What the call of \<open>self.client.request\<close> can do inside the \<open>try\<close> block: return a
  response, or raise an instance of \<open>Exception\<close>. The three handlers tell the exceptions
  apart by class, in this order: \<open>httpx.TimeoutException\<close>, \<open>httpx.NetworkError\<close>, any
  other \<open>Exception\<close>. Each exception carries \<open>str(e)\<close>. A response carries its status
  code and the elapsed time \<open>round(response_time_ms, 2)\<close> measured around the call.
\<close>

datatype py_exception =
    TimeoutException string
  | NetworkError string
  | OtherException string

datatype request_outcome =
    Returned int rat
  | Raised py_exception

text \<open>Python's \<open>str\<close> of an integer, as the f-strings of the source format it.\<close>

definition digit_char :: "nat \<Rightarrow> char" where
  "digit_char d =
     (if d = 0 then CHR ''0'' else if d = 1 then CHR ''1'' else if d = 2 then CHR ''2''
      else if d = 3 then CHR ''3'' else if d = 4 then CHR ''4'' else if d = 5 then CHR ''5''
      else if d = 6 then CHR ''6'' else if d = 7 then CHR ''7'' else if d = 8 then CHR ''8''
      else CHR ''9'')"

fun str_nat :: "nat \<Rightarrow> string" where
  "str_nat n = (if n < 10 then [digit_char n] else str_nat (n div 10) @ [digit_char (n mod 10)])"

definition str_int :: "int \<Rightarrow> string" where
  "str_int i = (if i < 0 then CHR ''-'' # str_nat (nat (- i)) else str_nat (nat i))"

definition request_of :: "APIMonitor \<Rightarrow> http_request" where
  "request_of monitor =
     \<lparr>req_method = method_value (http_method monitor),
      req_url = url monitor,
      req_headers = (case headers monitor of None \<Rightarrow> [] | Some h \<Rightarrow> h),
      req_timeout = httpx_Timeout (of_int (timeout monitor)) 5\<rparr>"

definition initial_result :: check_result where
  "initial_result =
     \<lparr>status_code = None, response_time = None, is_up = False, error_message = None\<rparr>"

definition check_api :: "(http_request \<Rightarrow> request_outcome) \<Rightarrow> APIMonitor \<Rightarrow> check_result" where
  "check_api client monitor =
     (case client (request_of monitor) of
        Returned code ms \<Rightarrow>
          (let result = initial_result
                 \<lparr>status_code := Some code,
                  response_time := Some ms,
                  is_up := (code = expected_status monitor)\<rparr>
           in if \<not> is_up result
              then result\<lparr>error_message :=
                     Some (''Expected status '' @ str_int (expected_status monitor)
                           @ '', got '' @ str_int code)\<rparr>
              else result)
      | Raised (TimeoutException detail) \<Rightarrow>
          initial_result\<lparr>error_message :=
            Some (''Request timeout after '' @ str_int (timeout monitor) @ ''s'')\<rparr>
      | Raised (NetworkError detail) \<Rightarrow>
          initial_result\<lparr>error_message := Some (''Network error: '' @ detail)\<rparr>
      | Raised (OtherException detail) \<Rightarrow>
          initial_result\<lparr>error_message := Some (''Unexpected error: '' @ detail)\<rparr>)"

section \<open>Result handling: \<open>save_health_check\<close> and \<open>handle_incident\<close>\<close>

definition save_health_check :: "clocks \<Rightarrow> database \<Rightarrow> int \<Rightarrow> check_result \<Rightarrow> database \<times> HealthCheck" where
  "save_health_check clk db mid result =
     (let health_check =
            \<lparr>health_check_pk = health_checks_seq db + 1,
             hc_monitor_id = mid,
             hc_status_code = status_code result,
             hc_response_time = response_time result,
             hc_is_up = is_up result,
             hc_error_message = error_message result,
             checked_at = func_now clk\<rparr>
      in (db\<lparr>health_checks := health_checks db @ [health_check],
              health_checks_seq := health_checks_seq db + 1\<rparr>,
          health_check))"

text \<open>
  The query of \<open>handle_incident\<close>: the rows of \<open>incidents\<close> of this monitor whose
  \<open>resolved_at\<close> is null, latest start first. \<open>scalar_one_or_none\<close> returns the only
  row, or nothing when there is none, and raises \<open>MultipleResultsFound\<close> when there are
  several.
\<close>

datatype error = MultipleResultsFound | ValueError

definition order_by_desc :: "('a \<Rightarrow> int) \<Rightarrow> 'a list \<Rightarrow> 'a list" where
  "order_by_desc key rows = rev (sort_key key rows)"

definition ongoing_rows :: "database \<Rightarrow> int \<Rightarrow> Incident list" where
  "ongoing_rows db mid =
     filter (\<lambda>i. monitor_id i = mid \<and> resolved_at i = None) (incidents db)"

definition ongoing_query :: "database \<Rightarrow> int \<Rightarrow> Incident list" where
  "ongoing_query db mid = order_by_desc started_at (ongoing_rows db mid)"

fun scalar_one_or_none :: "'a list \<Rightarrow> error + 'a option" where
  "scalar_one_or_none [] = Inr None"
| "scalar_one_or_none [r] = Inr (Some r)"
| "scalar_one_or_none (r # r' # rs) = Inl MultipleResultsFound"

text \<open>
  \<open>int(td.total_seconds())\<close>: the whole seconds of a time difference, truncated toward
  zero as Python's \<open>int\<close> truncates a float.
\<close>

definition int_total_seconds :: "timedelta \<Rightarrow> int" where
  "int_total_seconds td =
     (if 0 \<le> td then td div 1000000 else - ((- td) div 1000000))"

text \<open>
  The row that \<open>Incident(monitor_id=monitor.id, alert_sent=False)\<close> is after
  \<open>db.add\<close>, \<open>db.commit\<close> and \<open>db.refresh\<close>: the sequence gives the primary key, the
  server default gives \<open>started_at\<close>, the other columns are null.
\<close>

definition new_incident :: "clocks \<Rightarrow> database \<Rightarrow> APIMonitor \<Rightarrow> Incident" where
  "new_incident clk db monitor =
     \<lparr>incident_pk = incidents_seq db + 1,
      monitor_id = monitor_pk monitor,
      started_at = func_now clk,
      resolved_at = None,
      duration = None,
      alert_sent = False\<rparr>"

text \<open>The two assignments of the resolving branch, with \<open>now = datetime.utcnow()\<close>.\<close>

definition resolve :: "clocks \<Rightarrow> Incident \<Rightarrow> Incident" where
  "resolve clk ongoing_incident =
     (let now = utcnow clk
      in ongoing_incident
           \<lparr>resolved_at := Some now,
            duration := Some (int_total_seconds (now - started_at ongoing_incident))\<rparr>)"

text \<open>
  \<open>handle_incident\<close> returns the database after its commit and the incident it created
  or resolved, if any. An exception leaves the function before any commit. The commit of
  the resolving branch writes the row of the resolved incident, found by its primary key.
\<close>

definition handle_incident ::
  "clocks \<Rightarrow> database \<Rightarrow> APIMonitor \<Rightarrow> bool \<Rightarrow> error + (database \<times> Incident option)" where
  "handle_incident clk db monitor up =
     (case scalar_one_or_none (ongoing_query db (monitor_pk monitor)) of
        Inl e \<Rightarrow> Inl e
      | Inr ongoing_incident \<Rightarrow>
          (if \<not> up then
             (case ongoing_incident of
                None \<Rightarrow>
                  (let incident = new_incident clk db monitor
                   in Inr (db\<lparr>incidents := incidents db @ [incident],
                               incidents_seq := incidents_seq db + 1\<rparr>,
                           Some incident))
              | Some ongoing \<Rightarrow> Inr (db, None))
           else
             (case ongoing_incident of
                Some ongoing \<Rightarrow>
                  (let resolved = resolve clk ongoing
                   in Inr (db\<lparr>incidents :=
                                 map (\<lambda>r. if incident_pk r = incident_pk ongoing
                                          then resolved else r) (incidents db)\<rparr>,
                           Some resolved))
              | None \<Rightarrow> Inr (db, None))))"

text \<open>
  A sequence of calls of \<open>handle_incident\<close>, as \<open>perform_health_check\<close> makes them: a
  call that raises is caught by the caller and changes nothing in the database.
\<close>

type_synonym update_call = "clocks \<times> APIMonitor \<times> bool"

definition update :: "database \<Rightarrow> update_call \<Rightarrow> database" where
  "update db call =
     (case call of (clk, monitor, up) \<Rightarrow>
        (case handle_incident clk db monitor up of
           Inl e \<Rightarrow> db
         | Inr (db', changed) \<Rightarrow> db'))"

definition replay :: "database \<Rightarrow> update_call list \<Rightarrow> database" where
  "replay db calls = foldl update db calls"

section \<open>The notification bus: \<open>WebSocketManager\<close>\<close>

text \<open>
  A \<open>WebSocket\<close> object is known by its identity. \<open>active_connections\<close> is a Python list;
  \<open>in\<close> and \<open>remove\<close> compare by identity, and \<open>remove\<close> deletes the first occurrence.
  \<open>send_json ws message\<close> tells whether the delivery to \<open>ws\<close> succeeds (\<open>True\<close>) or raises.
\<close>

type_synonym WebSocket = nat
type_synonym message = "(string \<times> string) list"

definition connect :: "WebSocket list \<Rightarrow> WebSocket \<Rightarrow> WebSocket list" where
  "connect active_connections websocket = active_connections @ [websocket]"

text \<open>\<open>list.remove(x)\<close> deletes the first occurrence and raises \<open>ValueError\<close> when there is none.\<close>

definition list_remove :: "'a list \<Rightarrow> 'a \<Rightarrow> error + 'a list" where
  "list_remove xs x = (if x \<in> set xs then Inr (remove1 x xs) else Inl ValueError)"

definition disconnect :: "WebSocket list \<Rightarrow> WebSocket \<Rightarrow> error + WebSocket list" where
  "disconnect active_connections websocket =
     (if websocket \<in> set active_connections
      then list_remove active_connections websocket
      else Inr active_connections)"

definition send_personal_message ::
  "(WebSocket \<Rightarrow> message \<Rightarrow> bool) \<Rightarrow> WebSocket list \<Rightarrow> message \<Rightarrow> WebSocket
     \<Rightarrow> error + WebSocket list" where
  "send_personal_message send_json active_connections msg websocket =
     (if send_json websocket msg then Inr active_connections
      else disconnect active_connections websocket)"

text \<open>
  The first loop of \<open>broadcast\<close>: one \<open>send_json\<close> per connection of the list, in order.
  The log keeps the connections a delivery was attempted to, those it reached, and the
  list \<open>disconnected\<close> of those whose delivery raised.
\<close>

record send_log =
  attempted :: "WebSocket list"
  delivered :: "WebSocket list"
  disconnected :: "WebSocket list"

fun send_loop :: "(WebSocket \<Rightarrow> message \<Rightarrow> bool) \<Rightarrow> message \<Rightarrow> WebSocket list \<Rightarrow> send_log \<Rightarrow> send_log" where
  "send_loop send_json msg [] sent = sent"
| "send_loop send_json msg (connection # rest) sent =
     (if send_json connection msg
      then send_loop send_json msg rest
             (sent\<lparr>attempted := attempted sent @ [connection],
                  delivered := delivered sent @ [connection]\<rparr>)
      else send_loop send_json msg rest
             (sent\<lparr>attempted := attempted sent @ [connection],
                  disconnected := disconnected sent @ [connection]\<rparr>))"

text \<open>The second loop of \<open>broadcast\<close>: \<open>disconnect\<close> for each failed connection, in order.\<close>

fun disconnect_all :: "WebSocket list \<Rightarrow> WebSocket list \<Rightarrow> error + WebSocket list" where
  "disconnect_all active_connections [] = Inr active_connections"
| "disconnect_all active_connections (connection # rest) =
     (case disconnect active_connections connection of
        Inl e \<Rightarrow> Inl e
      | Inr remaining \<Rightarrow> disconnect_all remaining rest)"

text \<open>\<open>broadcast\<close> returns the active connections it leaves and the log of its sends.\<close>

definition no_sends :: send_log where
  "no_sends = \<lparr>attempted = [], delivered = [], disconnected = []\<rparr>"

definition broadcast ::
  "(WebSocket \<Rightarrow> message \<Rightarrow> bool) \<Rightarrow> WebSocket list \<Rightarrow> message
     \<Rightarrow> error + (WebSocket list \<times> send_log)" where
  "broadcast send_json active_connections msg =
     (if active_connections = [] then Inr (active_connections, no_sends)
      else
        (let sent = send_loop send_json msg active_connections no_sends
         in case disconnect_all active_connections (disconnected sent) of
              Inl e \<Rightarrow> Inl e
            | Inr remaining \<Rightarrow> Inr (remaining, sent)))"

section \<open>The cycle: \<open>perform_health_check\<close> and \<open>check_all_active_monitors\<close>\<close>

text \<open>
  The state the cycle runs in: the database, the connection manager \<open>ws_manager\<close>, and
  the events that have been passed to \<open>ws_manager.broadcast\<close> so far.
\<close>

record world =
  world_db :: database
  ws_manager :: "WebSocket list"
  broadcasts :: "message list"

text \<open>
  The environment of a cycle, per monitor id: what the network answers to the probe, and
  the clock readings of its result handling.
\<close>

record environment =
  http :: "int \<Rightarrow> http_request \<Rightarrow> request_outcome"
  clock :: "int \<Rightarrow> clocks"

text \<open>
  \<open>perform_health_check\<close>: probe, save the result, handle the incident. The result is
  committed by \<open>save_health_check\<close> before \<open>handle_incident\<close> runs, so an exception of
  \<open>handle_incident\<close>, caught and logged here, leaves the saved result in place.
\<close>

definition perform_health_check :: "environment \<Rightarrow> database \<Rightarrow> APIMonitor \<Rightarrow> database" where
  "perform_health_check env d monitor =
     (let result = check_api (http env (monitor_pk monitor)) monitor;
          clk = clock env (monitor_pk monitor);
          saved = fst (save_health_check clk d (monitor_pk monitor) result)
      in case handle_incident clk saved monitor (is_up result) of
           Inl e \<Rightarrow> saved
         | Inr (d', changed) \<Rightarrow> d')"

text \<open>
  \<open>check_all_active_monitors\<close>: the tasks of \<open>asyncio.gather\<close> are run here one after the
  other, in the order of the query result. The function works on the database only.
\<close>

definition check_all_active_monitors :: "environment \<Rightarrow> world \<Rightarrow> world" where
  "check_all_active_monitors env w =
     (let monitors = filter is_active (api_monitors (world_db w)) in
      if monitors = [] then w
      else w\<lparr>world_db := foldl (perform_health_check env) (world_db w) monitors\<rparr>)"

section \<open>Derived notions and sample inputs\<close>

text \<open>
  A monitor is Up when the table holds no ongoing incident for it and Down when it holds
  one; \<open>at_most_one_open\<close> says that no monitor has several.
\<close>

definition at_most_one_open :: "database \<Rightarrow> bool" where
  "at_most_one_open db = (\<forall>mid. length (ongoing_rows db mid) \<le> 1)"

text \<open>
  A sequence of calls in which every call is made a second time right after the first,
  for the same monitor and with the same result, at clock readings of its own.
\<close>

fun each_twice :: "(clocks \<Rightarrow> clocks) \<Rightarrow> update_call list \<Rightarrow> update_call list" where
  "each_twice later [] = []"
| "each_twice later ((clk, monitor, up) # calls) =
     (clk, monitor, up) # (later clk, monitor, up) # each_twice later calls"

definition example_monitor :: "int \<Rightarrow> int \<Rightarrow> APIMonitor" where
  "example_monitor pk t =
     \<lparr>monitor_pk = pk, user_id = 1, name = ''Production API'',
      url = ''https://api.example.com/health'', http_method = GET, headers = None,
      expected_status = 200, check_interval = 60, timeout = t, is_active = True\<rparr>"

definition at_times :: "datetime \<Rightarrow> datetime \<Rightarrow> clocks" where
  "at_times server app = \<lparr>func_now = server, utcnow = app\<rparr>"

text \<open>One failing result at time 0, one passing result a minute later.\<close>

definition down_then_up :: "update_call list" where
  "down_then_up =
     [(at_times 0 0, example_monitor 1 10, False),
      (at_times 60000000 60000000, example_monitor 1 10, True)]"

text \<open>
  Every resolved incident of the table carries the whole seconds between its start and its
  resolution as its duration.
\<close>

definition durations_recorded :: "database \<Rightarrow> bool" where
  "durations_recorded db =
     (\<forall>i \<in> set (incidents db). \<forall>r. resolved_at i = Some r \<longrightarrow>
        duration i = Some (int_total_seconds (r - started_at i)))"

text \<open>
  Two incidents: monitor 1 is down at 0 s and up again at 1.5 s; monitor 2 is down when the
  database server's clock reads 10 s and up again when the worker's clock reads 8 s.
\<close>

definition skewed_calls :: "update_call list" where
  "skewed_calls =
     [(at_times 0 0, example_monitor 1 10, False),
      (at_times 1500000 1500000, example_monitor 1 10, True),
      (at_times 10000000 10000000, example_monitor 2 10, False),
      (at_times 8000000 8000000, example_monitor 2 10, True)]"

text \<open>The database after one failing result for monitor 1.\<close>

definition one_down :: database where
  "one_down = replay empty_database [(at_times 0 0, example_monitor 1 10, False)]"

text \<open>
  A cycle over one active monitor whose endpoint answers 200, with one subscriber
  connected and no event broadcast so far.
\<close>

definition example_world :: world where
  "example_world =
     \<lparr>world_db = empty_database\<lparr>api_monitors := [example_monitor 1 10]\<rparr>,
      ws_manager = [1],
      broadcasts = []\<rparr>"

definition example_environment :: environment where
  "example_environment =
     \<lparr>http = (\<lambda>mid request. Returned 200 12),
      clock = (\<lambda>mid. at_times 0 0)\<rparr>"

section \<open>Properties of the probe\<close>

text \<open>
  Claim C2. The result of \<open>check_api\<close> is up exactly when the request returned a response
  whose status code is the expected one; when the request raised, the result is not up,
  has no status code, and carries a non-empty error message.
\<close>

theorem check_api_is_up_iff:
  "(is_up (check_api client monitor) \<longleftrightarrow>
      (\<exists>code ms. client (request_of monitor) = Returned code ms
                 \<and> code = expected_status monitor))
   \<and> (\<forall>e. client (request_of monitor) = Raised e \<longrightarrow>
          \<not> is_up (check_api client monitor)
          \<and> status_code (check_api client monitor) = None
          \<and> (\<exists>msg. error_message (check_api client monitor) = Some msg \<and> msg \<noteq> []))"
  by (auto simp: check_api_def initial_result_def Let_def
        split: request_outcome.splits py_exception.splits)

theorem check_api_is_up_iff_witness:
  "\<not> is_up (check_api (\<lambda>r. Raised (NetworkError ''connection refused'')) (example_monitor 1 10))
   \<and> status_code (check_api (\<lambda>r. Raised (NetworkError ''connection refused''))
         (example_monitor 1 10)) = None
   \<and> error_message (check_api (\<lambda>r. Raised (NetworkError ''connection refused''))
         (example_monitor 1 10)) = Some ''Network error: connection refused''"
  using check_api_is_up_iff
    [of "\<lambda>r. Raised (NetworkError ''connection refused'')" "example_monitor 1 10"]
  by (simp add: check_api_def initial_result_def)

text \<open>
  Claim C7. A request that raises is classified by the class of the exception into one of
  three kinds, with the messages \<open>Request timeout after {timeout}s\<close>,
  \<open>Network error: {detail}\<close> and \<open>Unexpected error: {detail}\<close>; in all three the result
  is not up and has neither status code nor response time. \<open>check_api\<close> returns a result
  for every outcome of the request: whenever the request did not return a response, the
  result is a failed result with a message.
\<close>

theorem check_api_failure_kinds:
  "(\<forall>detail. client (request_of monitor) = Raised (TimeoutException detail) \<longrightarrow>
       check_api client monitor =
         \<lparr>status_code = None, response_time = None, is_up = False,
          error_message = Some (''Request timeout after '' @ str_int (timeout monitor) @ ''s'')\<rparr>)
   \<and> (\<forall>detail. client (request_of monitor) = Raised (NetworkError detail) \<longrightarrow>
       check_api client monitor =
         \<lparr>status_code = None, response_time = None, is_up = False,
          error_message = Some (''Network error: '' @ detail)\<rparr>)
   \<and> (\<forall>detail. client (request_of monitor) = Raised (OtherException detail) \<longrightarrow>
       check_api client monitor =
         \<lparr>status_code = None, response_time = None, is_up = False,
          error_message = Some (''Unexpected error: '' @ detail)\<rparr>)
   \<and> ((\<exists>code ms. client (request_of monitor) = Returned code ms)
        \<or> (\<exists>msg. check_api client monitor =
              \<lparr>status_code = None, response_time = None, is_up = False,
               error_message = Some msg\<rparr>))"
proof -
  have "(\<exists>code ms. client (request_of monitor) = Returned code ms)
        \<or> (\<exists>msg. check_api client monitor =
              \<lparr>status_code = None, response_time = None, is_up = False,
               error_message = Some msg\<rparr>)"
  proof (cases "client (request_of monitor)")
    case (Returned code ms)
    then show ?thesis by simp
  next
    case (Raised e)
    then show ?thesis
      by (cases e) (simp_all add: check_api_def initial_result_def)
  qed
  then show ?thesis
    by (simp add: check_api_def initial_result_def)
qed

theorem check_api_failure_kinds_witness:
  "check_api (\<lambda>r. Raised (TimeoutException ''read timed out'')) (example_monitor 1 10) =
     \<lparr>status_code = None, response_time = None, is_up = False,
      error_message = Some ''Request timeout after 10s''\<rparr>
   \<and> check_api (\<lambda>r. Raised (NetworkError ''dns'')) (example_monitor 1 10) =
     \<lparr>status_code = None, response_time = None, is_up = False,
      error_message = Some ''Network error: dns''\<rparr>
   \<and> check_api (\<lambda>r. Raised (OtherException ''boom'')) (example_monitor 1 10) =
     \<lparr>status_code = None, response_time = None, is_up = False,
      error_message = Some ''Unexpected error: boom''\<rparr>"
  using check_api_failure_kinds
      [of "\<lambda>r. Raised (TimeoutException ''read timed out'')" "example_monitor 1 10"]
    check_api_failure_kinds [of "\<lambda>r. Raised (NetworkError ''dns'')" "example_monitor 1 10"]
    check_api_failure_kinds [of "\<lambda>r. Raised (OtherException ''boom'')" "example_monitor 1 10"]
  by (simp add: example_monitor_def str_int_def digit_char_def)

text \<open>
  Claim C9, as the code has it. The connection-establishment timeout of the request is
  5 seconds whatever the monitor's timeout is, and the other timeouts are the monitor's
  timeout; so the connection timeout stays within the monitor's timeout exactly when that
  is at least 5 seconds.
\<close>

theorem connect_timeout_fixed:
  "connect_timeout (req_timeout (request_of monitor)) = 5
   \<and> read_timeout (req_timeout (request_of monitor)) = of_int (timeout monitor)
   \<and> (connect_timeout (req_timeout (request_of monitor))
          \<le> read_timeout (req_timeout (request_of monitor))
        \<longleftrightarrow> 5 \<le> timeout monitor)"
  by (simp add: request_of_def httpx_Timeout_def)

text \<open>
  With a timeout of 1 second, inside the bound 1 to 60 of the schema, the connection
  timeout of 5 seconds exceeds the timeout derived from the monitor.
\<close>

theorem connect_timeout_counterexample:
  "\<not> connect_timeout (req_timeout (request_of (example_monitor 1 1)))
       \<le> read_timeout (req_timeout (request_of (example_monitor 1 1)))"
  by (simp add: request_of_def httpx_Timeout_def example_monitor_def)

section \<open>Properties of the notification bus\<close>

lemma disconnect_returns:
  "disconnect conns w = Inr (if w \<in> set conns then remove1 w conns else conns)"
  by (simp add: disconnect_def list_remove_def)

lemma disconnect_all_keeps_head:
  "x \<notin> set ys \<Longrightarrow>
   disconnect_all (x # xs) ys = map_sum id (\<lambda>r. x # r) (disconnect_all xs ys)"
proof (induction ys arbitrary: xs)
  case Nil
  then show ?case by simp
next
  case (Cons y ys)
  then show ?case by (auto simp: disconnect_returns)
qed

text \<open>Disconnecting the failed connections of a list leaves the others, in their order.\<close>

lemma disconnect_all_failed:
  "disconnect_all xs (filter P xs) = Inr (filter (\<lambda>x. \<not> P x) xs)"
proof (induction xs)
  case Nil
  then show ?case by simp
next
  case (Cons x xs)
  show ?case
  proof (cases "P x")
    case True
    with Cons show ?thesis by (simp add: disconnect_returns)
  next
    case False
    then have "x \<notin> set (filter P xs)" by simp
    from disconnect_all_keeps_head [OF this] Cons False show ?thesis by simp
  qed
qed

lemma send_loop_attempted:
  "attempted (send_loop send_json msg cs acc) = attempted acc @ cs"
  by (induction cs arbitrary: acc) auto

lemma send_loop_delivered:
  "delivered (send_loop send_json msg cs acc) =
     delivered acc @ filter (\<lambda>c. send_json c msg) cs"
  by (induction cs arbitrary: acc) auto

lemma send_loop_disconnected:
  "disconnected (send_loop send_json msg cs acc) =
     disconnected acc @ filter (\<lambda>c. \<not> send_json c msg) cs"
  by (induction cs arbitrary: acc) auto

lemma broadcast_returns:
  "broadcast send_json conns msg =
     Inr (filter (\<lambda>c. send_json c msg) conns, send_loop send_json msg conns no_sends)"
  by (cases "conns = []")
     (simp_all add: broadcast_def Let_def send_loop_disconnected no_sends_def
        disconnect_all_failed)

text \<open>
  The active list stays free of repetitions: \<open>connect\<close> of a connection that is not
  registered, \<open>disconnect\<close> and \<open>broadcast\<close> all keep it so.
\<close>

lemma connect_distinct:
  "distinct conns \<Longrightarrow> w \<notin> set conns \<Longrightarrow> distinct (connect conns w)"
  by (simp add: connect_def)

lemma disconnect_distinct:
  "distinct conns \<Longrightarrow> disconnect conns w = Inr remaining \<Longrightarrow> distinct remaining"
  by (auto simp: disconnect_returns)

lemma broadcast_distinct:
  "distinct conns \<Longrightarrow> broadcast send_json conns msg = Inr (remaining, sent) \<Longrightarrow>
   distinct remaining"
  by (auto simp: broadcast_returns)

text \<open>
  Two subscribers, the delivery to the second fails: the first still receives the event,
  the second is removed, and the next broadcast goes to the first only.
\<close>

lemma broadcast_two_subscribers:
  "broadcast (\<lambda>c m. c \<noteq> 2) [1, 2] [(''type'', ''stats_updated'')] =
     Inr ([1], \<lparr>attempted = [1, 2], delivered = [1], disconnected = [2]\<rparr>)
   \<and> broadcast (\<lambda>c m. True) [1] [(''type'', ''stats_updated'')] =
     Inr ([1], \<lparr>attempted = [1], delivered = [1], disconnected = []\<rparr>)"
  by (simp add: broadcast_def no_sends_def disconnect_def list_remove_def)

text \<open>
  Claim C8. A broadcast attempts one delivery to every active connection, whether or not
  an earlier delivery failed; it reaches every connection whose delivery succeeds; the
  connections whose delivery failed are exactly those removed from the active list; and
  the next broadcast, whatever its deliveries do, attempts the survivors only.
\<close>

theorem broadcast_evicts_failed:
  "\<exists>sent sent'.
     broadcast send_json conns msg = Inr (filter (\<lambda>c. send_json c msg) conns, sent)
     \<and> attempted sent = conns
     \<and> delivered sent = filter (\<lambda>c. send_json c msg) conns
     \<and> disconnected sent = filter (\<lambda>c. \<not> send_json c msg) conns
     \<and> broadcast send_json' (filter (\<lambda>c. send_json c msg) conns) msg' =
         Inr (filter (\<lambda>c. send_json' c msg') (filter (\<lambda>c. send_json c msg) conns), sent')
     \<and> attempted sent' = filter (\<lambda>c. send_json c msg) conns"
  by (simp add: broadcast_returns send_loop_attempted send_loop_delivered
        send_loop_disconnected no_sends_def)

text \<open>
  Claim C10. On an active list without repeated connections, \<open>disconnect\<close> raises nothing,
  removes the connection when it is there and changes nothing when it is not, and a second
  \<open>disconnect\<close> of the same connection changes nothing; a broadcast whose delivery to the
  connection failed leaves a list from which the connection is gone and on which
  \<open>disconnect\<close> of it raises nothing and changes nothing.
\<close>

theorem disconnect_idempotent:
  assumes "distinct conns"
  shows "(\<exists>remaining. disconnect conns w = Inr remaining
            \<and> set remaining = set conns - {w}
            \<and> (w \<notin> set conns \<longrightarrow> remaining = conns)
            \<and> distinct remaining
            \<and> disconnect remaining w = Inr remaining)
         \<and> (\<not> send_json w msg \<longrightarrow>
              (\<exists>remaining sent. broadcast send_json conns msg = Inr (remaining, sent)
                 \<and> w \<notin> set remaining
                 \<and> disconnect remaining w = Inr remaining))"
  using assms by (auto simp: disconnect_returns broadcast_returns)

theorem disconnect_idempotent_witness:
  "distinct [1, 2, 3 :: nat]
   \<and> disconnect [1, 2, 3] 2 = Inr [1, 3]
   \<and> disconnect [1, 3] 2 = Inr [1, 3]
   \<and> fst (projr (broadcast (\<lambda>c m. c \<noteq> 2) [1, 2, 3] [(''type'', ''stats_updated'')])) = [1, 3]"
  using disconnect_idempotent
    [where conns = "[1, 2, 3]" and w = 2 and send_json = "\<lambda>c m. c \<noteq> 2"
       and msg = "[(''type'', ''stats_updated'')]"]
  by (simp add: disconnect_def list_remove_def broadcast_returns)

section \<open>Properties of the incident tracker\<close>

lemma scalar_one_or_none_order_by:
  "scalar_one_or_none (order_by_desc key rows) = scalar_one_or_none rows"
proof (cases rows)
  case Nil
  then show ?thesis by (simp add: order_by_desc_def)
next
  case (Cons r rs)
  show ?thesis
  proof (cases rs)
    case Nil
    with Cons show ?thesis by (simp add: order_by_desc_def)
  next
    case (Cons r' rs')
    have "length (order_by_desc key rows) = length rows"
      by (simp add: order_by_desc_def)
    with \<open>rows = r # rs\<close> Cons obtain a b cs where "order_by_desc key rows = a # b # cs"
      by (cases "order_by_desc key rows"; cases "tl (order_by_desc key rows)") auto
    with \<open>rows = r # rs\<close> Cons show ?thesis by simp
  qed
qed

lemma handle_incident_create:
  "ongoing_rows db (monitor_pk monitor) = [] \<Longrightarrow>
   handle_incident clk db monitor False =
     Inr (db\<lparr>incidents := incidents db @ [new_incident clk db monitor],
             incidents_seq := incidents_seq db + 1\<rparr>,
          Some (new_incident clk db monitor))"
  by (simp add: handle_incident_def ongoing_query_def scalar_one_or_none_order_by Let_def)

lemma handle_incident_resolve:
  "ongoing_rows db (monitor_pk monitor) = [ongoing] \<Longrightarrow>
   handle_incident clk db monitor True =
     Inr (db\<lparr>incidents := map (\<lambda>r. if incident_pk r = incident_pk ongoing
                                  then resolve clk ongoing else r) (incidents db)\<rparr>,
          Some (resolve clk ongoing))"
  by (simp add: handle_incident_def ongoing_query_def scalar_one_or_none_order_by Let_def)

lemma handle_incident_still_up:
  "ongoing_rows db (monitor_pk monitor) = [] \<Longrightarrow>
   handle_incident clk db monitor True = Inr (db, None)"
  by (simp add: handle_incident_def ongoing_query_def scalar_one_or_none_order_by)

lemma handle_incident_still_down:
  "ongoing_rows db (monitor_pk monitor) = [ongoing] \<Longrightarrow>
   handle_incident clk db monitor False = Inr (db, None)"
  by (simp add: handle_incident_def ongoing_query_def scalar_one_or_none_order_by)

lemma handle_incident_several:
  "ongoing_rows db (monitor_pk monitor) = a # b # cs \<Longrightarrow>
   handle_incident clk db monitor up = Inl MultipleResultsFound"
  by (simp add: handle_incident_def ongoing_query_def scalar_one_or_none_order_by)

lemma ongoing_rows_create:
  "ongoing_rows (db\<lparr>incidents := incidents db @ [new_incident clk db monitor],
                    incidents_seq := s\<rparr>) mid =
     ongoing_rows db mid @ (if mid = monitor_pk monitor then [new_incident clk db monitor] else [])"
  by (simp add: ongoing_rows_def new_incident_def)

lemma filter_map_resolved:
  "\<not> P r' \<Longrightarrow>
   filter P (map (\<lambda>r. if incident_pk r = k then r' else r) rows) =
     filter (\<lambda>r. incident_pk r \<noteq> k) (filter P rows)"
  by (induction rows) auto

lemma ongoing_rows_resolve:
  "ongoing_rows (db\<lparr>incidents := map (\<lambda>r. if incident_pk r = k
                                        then resolve clk ongoing else r) (incidents db)\<rparr>) mid =
     filter (\<lambda>r. incident_pk r \<noteq> k) (ongoing_rows db mid)"
  unfolding ongoing_rows_def
  by (simp add: filter_map_resolved resolve_def Let_def)

lemma update_cases:
  "update db (clk, monitor, up) = db
   \<or> (ongoing_rows db (monitor_pk monitor) = [] \<and> \<not> up
       \<and> update db (clk, monitor, up) =
           db\<lparr>incidents := incidents db @ [new_incident clk db monitor],
              incidents_seq := incidents_seq db + 1\<rparr>)
   \<or> (\<exists>ongoing. ongoing_rows db (monitor_pk monitor) = [ongoing] \<and> up
       \<and> update db (clk, monitor, up) =
           db\<lparr>incidents := map (\<lambda>r. if incident_pk r = incident_pk ongoing
                                   then resolve clk ongoing else r) (incidents db)\<rparr>)"
proof (cases "ongoing_rows db (monitor_pk monitor)")
  case Nil
  then show ?thesis
    by (cases up) (simp_all add: update_def handle_incident_create handle_incident_still_up)
next
  case (Cons a rest)
  show ?thesis
  proof (cases rest)
    case Nil
    with Cons show ?thesis
      by (cases up) (simp_all add: update_def handle_incident_resolve handle_incident_still_down)
  next
    case (Cons b cs)
    with \<open>ongoing_rows db (monitor_pk monitor) = a # rest\<close> show ?thesis
      by (simp add: update_def handle_incident_several)
  qed
qed

lemma update_at_most_one_open:
  assumes "at_most_one_open db"
  shows "at_most_one_open (update db call)"
proof -
  obtain clk monitor up where call: "call = (clk, monitor, up)" by (cases call) auto
  from update_cases [of db clk monitor up] show ?thesis
  proof (elim disjE conjE exE)
    assume "update db (clk, monitor, up) = db"
    with assms call show ?thesis by simp
  next
    assume none: "ongoing_rows db (monitor_pk monitor) = []"
      and upd: "update db (clk, monitor, up) =
           db\<lparr>incidents := incidents db @ [new_incident clk db monitor],
              incidents_seq := incidents_seq db + 1\<rparr>"
    show ?thesis
      unfolding at_most_one_open_def
    proof
      fix mid
      from assms have "length (ongoing_rows db mid) \<le> 1" by (simp add: at_most_one_open_def)
      with none show "length (ongoing_rows (update db call) mid) \<le> 1"
        by (simp add: call upd ongoing_rows_create)
    qed
  next
    fix ongoing
    assume upd: "update db (clk, monitor, up) =
           db\<lparr>incidents := map (\<lambda>r. if incident_pk r = incident_pk ongoing
                                   then resolve clk ongoing else r) (incidents db)\<rparr>"
    show ?thesis
      unfolding at_most_one_open_def
    proof
      fix mid
      from assms have "length (ongoing_rows db mid) \<le> 1" by (simp add: at_most_one_open_def)
      then have "length (filter (\<lambda>r. incident_pk r \<noteq> incident_pk ongoing) (ongoing_rows db mid)) \<le> 1"
        by (rule le_trans [OF length_filter_le])
      then show "length (ongoing_rows (update db call) mid) \<le> 1"
        by (simp add: call upd ongoing_rows_resolve)
    qed
  qed
qed

lemma replay_at_most_one_open:
  "at_most_one_open db \<Longrightarrow> at_most_one_open (replay db calls)"
  unfolding replay_def
  by (induction calls arbitrary: db) (simp_all add: update_at_most_one_open)

text \<open>
  Claim C3. From a database in which no monitor has several ongoing incidents (the empty
  database is one), no sequence of calls of \<open>handle_incident\<close>, for any monitors, results
  and clock readings, leads to a database in which a monitor has more than one.
\<close>

theorem at_most_one_open_incident:
  "(\<forall>m. length (ongoing_rows db m) \<le> 1) \<Longrightarrow>
   length (ongoing_rows (replay db calls) mid) \<le> 1"
  using replay_at_most_one_open [of db calls] by (simp add: at_most_one_open_def)

theorem at_most_one_open_incident_witness:
  "(\<forall>m. length (ongoing_rows empty_database m) \<le> 1)
   \<and> length (ongoing_rows
         (replay empty_database
            [(at_times 0 0, example_monitor 1 10, False),
             (at_times 60000000 60000000, example_monitor 1 10, False)]) 1) \<le> 1"
  using at_most_one_open_incident
    [of empty_database
        "[(at_times 0 0, example_monitor 1 10, False),
          (at_times 60000000 60000000, example_monitor 1 10, False)]" 1]
  by (simp add: empty_database_def ongoing_rows_def)

lemma update_twice:
  "update (update db (clk, monitor, up)) (clk', monitor, up) = update db (clk, monitor, up)"
proof (cases "ongoing_rows db (monitor_pk monitor)")
  case Nil
  show ?thesis
  proof (cases up)
    case True
    with Nil show ?thesis by (simp add: update_def handle_incident_still_up)
  next
    case False
    from Nil have after: "ongoing_rows (db\<lparr>incidents := incidents db @ [new_incident clk db monitor],
                    incidents_seq := incidents_seq db + 1\<rparr>) (monitor_pk monitor) = [new_incident clk db monitor]"
      by (simp add: ongoing_rows_create)
    from Nil False show ?thesis
      by (simp add: update_def handle_incident_create handle_incident_still_down [OF after])
  qed
next
  case (Cons a rest)
  show ?thesis
  proof (cases rest)
    case Nil
    with Cons have one: "ongoing_rows db (monitor_pk monitor) = [a]" by simp
    show ?thesis
    proof (cases up)
      case True
      from one have after: "ongoing_rows (db\<lparr>incidents := map (\<lambda>r. if incident_pk r = incident_pk a
                                        then resolve clk a else r) (incidents db)\<rparr>) (monitor_pk monitor) = []"
        by (simp add: ongoing_rows_resolve)
      from one True show ?thesis
        by (simp add: update_def handle_incident_resolve handle_incident_still_up [OF after])
    next
      case False
      with one show ?thesis by (simp add: update_def handle_incident_still_down)
    qed
  next
    case (Cons b cs)
    with \<open>ongoing_rows db (monitor_pk monitor) = a # rest\<close> show ?thesis
      by (simp add: update_def handle_incident_several)
  qed
qed

text \<open>
  Claim C6, as the code has it. A result delivered a second time right after the first,
  for the same monitor, creates and resolves nothing: a sequence of calls in which every
  call is repeated at once leaves the database that the sequence itself leaves.
\<close>

theorem replay_each_twice:
  "replay db (each_twice later calls) = replay db calls"
proof (induction calls arbitrary: db)
  case Nil
  then show ?case by simp
next
  case (Cons call calls)
  obtain clk monitor up where "call = (clk, monitor, up)" by (cases call) auto
  with Cons show ?case by (simp add: replay_def update_twice)
qed

lemma replay_once_value:
  "incidents (replay empty_database down_then_up) =
     [\<lparr>incident_pk = 1, monitor_id = 1, started_at = 0, resolved_at = Some 60000000,
       duration = Some 60, alert_sent = False\<rparr>]"
  by (simp add: replay_def update_def handle_incident_def ongoing_query_def ongoing_rows_def
        order_by_desc_def new_incident_def resolve_def int_total_seconds_def
        empty_database_def down_then_up_def at_times_def example_monitor_def Let_def)

lemma replay_twice_value:
  "incidents (replay empty_database (down_then_up @ down_then_up)) =
     [\<lparr>incident_pk = 1, monitor_id = 1, started_at = 0, resolved_at = Some 60000000,
       duration = Some 60, alert_sent = False\<rparr>,
      \<lparr>incident_pk = 2, monitor_id = 1, started_at = 0, resolved_at = Some 60000000,
       duration = Some 60, alert_sent = False\<rparr>]"
  by (simp add: replay_def update_def handle_incident_def ongoing_query_def ongoing_rows_def
        order_by_desc_def new_incident_def resolve_def int_total_seconds_def
        empty_database_def down_then_up_def at_times_def example_monitor_def Let_def)

text \<open>
  Replaying the whole sequence a second time is another matter: the sequence of a failing
  and then a passing result leaves one incident, and replayed once more it leaves two.
\<close>

theorem replay_twice_counterexample:
  "set (incidents (replay empty_database (down_then_up @ down_then_up)))
     \<noteq> set (incidents (replay empty_database down_then_up))"
  by (simp add: replay_once_value replay_twice_value)

lemma resolve_in_map:
  "ongoing \<in> set rows \<Longrightarrow>
   resolved \<in> set (map (\<lambda>r. if incident_pk r = incident_pk ongoing then resolved else r) rows)"
  by (induction rows) auto

lemma handle_incident_from_up:
  assumes "ongoing_rows db (monitor_pk monitor) = []"
  shows "handle_incident clk db monitor True = Inr (db, None)"
    and "\<exists>db'. handle_incident clk db monitor False =
                  Inr (db', Some (new_incident clk db monitor))
             \<and> incidents db' = incidents db @ [new_incident clk db monitor]
             \<and> ongoing_rows db' (monitor_pk monitor) = [new_incident clk db monitor]"
proof -
  from assms show "handle_incident clk db monitor True = Inr (db, None)"
    by (rule handle_incident_still_up)
  let ?db' = "db\<lparr>incidents := incidents db @ [new_incident clk db monitor],
                  incidents_seq := incidents_seq db + 1\<rparr>"
  from assms have "ongoing_rows ?db' (monitor_pk monitor) = [new_incident clk db monitor]"
    by (simp add: ongoing_rows_create)
  moreover have "incidents ?db' = incidents db @ [new_incident clk db monitor]" by simp
  moreover from assms have "handle_incident clk db monitor False =
      Inr (?db', Some (new_incident clk db monitor))"
    by (rule handle_incident_create)
  ultimately show "\<exists>db'. handle_incident clk db monitor False =
                  Inr (db', Some (new_incident clk db monitor))
             \<and> incidents db' = incidents db @ [new_incident clk db monitor]
             \<and> ongoing_rows db' (monitor_pk monitor) = [new_incident clk db monitor]"
    by blast
qed

lemma handle_incident_from_down:
  assumes "ongoing_rows db (monitor_pk monitor) = [ongoing]"
  shows "handle_incident clk db monitor False = Inr (db, None)"
    and "\<exists>db'. handle_incident clk db monitor True = Inr (db', Some (resolve clk ongoing))
             \<and> length (incidents db') = length (incidents db)
             \<and> resolve clk ongoing \<in> set (incidents db')
             \<and> ongoing_rows db' (monitor_pk monitor) = []"
proof -
  from assms show "handle_incident clk db monitor False = Inr (db, None)"
    by (rule handle_incident_still_down)
  let ?db' = "db\<lparr>incidents := map (\<lambda>r. if incident_pk r = incident_pk ongoing
                                  then resolve clk ongoing else r) (incidents db)\<rparr>"
  from assms have "ongoing \<in> set (ongoing_rows db (monitor_pk monitor))" by simp
  then have "ongoing \<in> set (incidents db)" by (simp add: ongoing_rows_def)
  then have "resolve clk ongoing \<in> set (incidents ?db')"
    by (simp add: resolve_in_map del: set_map)
  moreover from assms have "ongoing_rows ?db' (monitor_pk monitor) = []"
    by (simp add: ongoing_rows_resolve)
  moreover have "length (incidents ?db') = length (incidents db)" by simp
  moreover from assms have "handle_incident clk db monitor True =
      Inr (?db', Some (resolve clk ongoing))"
    by (rule handle_incident_resolve)
  ultimately show "\<exists>db'. handle_incident clk db monitor True = Inr (db', Some (resolve clk ongoing))
             \<and> length (incidents db') = length (incidents db)
             \<and> resolve clk ongoing \<in> set (incidents db')
             \<and> ongoing_rows db' (monitor_pk monitor) = []"
    by blast
qed


lemma one_down_value:
  "one_down =
     \<lparr>api_monitors = [], health_checks = [],
      incidents = [\<lparr>incident_pk = 1, monitor_id = 1, started_at = 0, resolved_at = None,
                    duration = None, alert_sent = False\<rparr>],
      health_checks_seq = 0, incidents_seq = 1\<rparr>"
  by (simp add: one_down_def replay_def update_def handle_incident_def ongoing_query_def
        ongoing_rows_def order_by_desc_def new_incident_def empty_database_def at_times_def
        example_monitor_def Let_def)

lemma one_down_ongoing:
  "ongoing_rows one_down (monitor_pk (example_monitor 1 10)) =
     [\<lparr>incident_pk = 1, monitor_id = 1, started_at = 0, resolved_at = None,
       duration = None, alert_sent = False\<rparr>]"
  by (simp add: one_down_value ongoing_rows_def example_monitor_def)

lemma empty_ongoing:
  "ongoing_rows empty_database (monitor_pk (example_monitor 1 10)) = []"
  by (simp add: empty_database_def ongoing_rows_def)

text \<open>
  Claim C4. \<open>handle_incident\<close> is the two-state machine. From Up (no ongoing incident of
  the monitor) a failing result inserts a new incident, started now and unresolved,
  returns it and leaves the monitor Down, and a passing result changes nothing and returns
  nothing. From Down (one ongoing incident) a passing result sets resolution and duration
  of that incident, returns it and leaves the monitor Up, and a failing result changes
  nothing and returns nothing.
\<close>

theorem handle_incident_state_machine:
  "(ongoing_rows db (monitor_pk monitor) = [] \<longrightarrow>
      handle_incident clk db monitor True = Inr (db, None)
      \<and> (\<exists>db'. handle_incident clk db monitor False =
                   Inr (db', Some (new_incident clk db monitor))
             \<and> incidents db' = incidents db @ [new_incident clk db monitor]
             \<and> ongoing_rows db' (monitor_pk monitor) = [new_incident clk db monitor])
      \<and> monitor_id (new_incident clk db monitor) = monitor_pk monitor
      \<and> started_at (new_incident clk db monitor) = func_now clk
      \<and> resolved_at (new_incident clk db monitor) = None)
   \<and> (\<forall>ongoing. ongoing_rows db (monitor_pk monitor) = [ongoing] \<longrightarrow>
      handle_incident clk db monitor False = Inr (db, None)
      \<and> (\<exists>db'. handle_incident clk db monitor True = Inr (db', Some (resolve clk ongoing))
             \<and> length (incidents db') = length (incidents db)
             \<and> resolve clk ongoing \<in> set (incidents db')
             \<and> ongoing_rows db' (monitor_pk monitor) = [])
      \<and> resolve clk ongoing =
           ongoing\<lparr>resolved_at := Some (utcnow clk),
                   duration := Some (int_total_seconds (utcnow clk - started_at ongoing))\<rparr>)"
proof (intro conjI impI allI)
  assume up: "ongoing_rows db (monitor_pk monitor) = []"
  from up show "handle_incident clk db monitor True = Inr (db, None)"
    by (rule handle_incident_from_up(1))
  from up show "\<exists>db'. handle_incident clk db monitor False =
                   Inr (db', Some (new_incident clk db monitor))
             \<and> incidents db' = incidents db @ [new_incident clk db monitor]
             \<and> ongoing_rows db' (monitor_pk monitor) = [new_incident clk db monitor]"
    by (rule handle_incident_from_up(2))
  show "monitor_id (new_incident clk db monitor) = monitor_pk monitor"
    by (simp add: new_incident_def)
  show "started_at (new_incident clk db monitor) = func_now clk"
    by (simp add: new_incident_def)
  show "resolved_at (new_incident clk db monitor) = None"
    by (simp add: new_incident_def)
next
  fix ongoing
  assume down: "ongoing_rows db (monitor_pk monitor) = [ongoing]"
  from down show "handle_incident clk db monitor False = Inr (db, None)"
    by (rule handle_incident_from_down(1))
  from down show "\<exists>db'. handle_incident clk db monitor True =
                   Inr (db', Some (resolve clk ongoing))
             \<and> length (incidents db') = length (incidents db)
             \<and> resolve clk ongoing \<in> set (incidents db')
             \<and> ongoing_rows db' (monitor_pk monitor) = []"
    by (rule handle_incident_from_down(2))
  show "resolve clk ongoing =
           ongoing\<lparr>resolved_at := Some (utcnow clk),
                   duration := Some (int_total_seconds (utcnow clk - started_at ongoing))\<rparr>"
    by (simp add: resolve_def Let_def)
qed

theorem handle_incident_state_machine_witness:
  "ongoing_rows empty_database (monitor_pk (example_monitor 1 10)) = []
   \<and> handle_incident (at_times 0 0) empty_database (example_monitor 1 10) True
       = Inr (empty_database, None)
   \<and> ongoing_rows one_down (monitor_pk (example_monitor 1 10)) =
       [\<lparr>incident_pk = 1, monitor_id = 1, started_at = 0, resolved_at = None,
         duration = None, alert_sent = False\<rparr>]
   \<and> handle_incident (at_times 60000000 60000000) one_down (example_monitor 1 10) False
       = Inr (one_down, None)"
  using handle_incident_state_machine
      [of empty_database "example_monitor 1 10" "at_times 0 0"]
    handle_incident_state_machine
      [of one_down "example_monitor 1 10" "at_times 60000000 60000000"]
  by (simp add: empty_ongoing one_down_ongoing)

lemma int_total_seconds_bounds:
  assumes "0 \<le> td"
  shows "0 \<le> int_total_seconds td
   \<and> int_total_seconds td * 1000000 \<le> td
   \<and> td < (int_total_seconds td + 1) * 1000000"
proof -
  from assms have eq: "int_total_seconds td = td div 1000000"
    by (simp add: int_total_seconds_def)
  have m: "0 \<le> td mod 1000000" "td mod 1000000 < 1000000" by simp_all
  have d: "td = td div 1000000 * 1000000 + td mod 1000000" by simp
  have e: "(td div 1000000 + 1) * 1000000 = td div 1000000 * 1000000 + 1000000"
    by (simp add: distrib_right)
  from m d have "td div 1000000 * 1000000 \<le> td" by linarith
  moreover from m d e have "td < (td div 1000000 + 1) * 1000000" by linarith
  moreover from assms have "0 \<le> td div 1000000" by (simp add: pos_imp_zdiv_nonneg_iff)
  ultimately show ?thesis using eq by simp
qed


lemma durations_recorded_append:
  "durations_recorded db \<Longrightarrow> resolved_at i = None \<Longrightarrow>
   durations_recorded (db\<lparr>incidents := incidents db @ [i], incidents_seq := s\<rparr>)"
  by (simp add: durations_recorded_def)

lemma resolve_recorded:
  "resolved_at (resolve clk ongoing) = Some r \<Longrightarrow>
   duration (resolve clk ongoing) = Some (int_total_seconds (r - started_at (resolve clk ongoing)))"
  by (simp add: resolve_def Let_def)

lemma durations_recorded_map:
  assumes "durations_recorded db"
  shows "durations_recorded
           (db\<lparr>incidents := map (\<lambda>r. if incident_pk r = k then resolve clk ongoing else r)
                                (incidents db)\<rparr>)"
  unfolding durations_recorded_def
proof (intro ballI allI impI)
  fix i r
  assume i: "i \<in> set (incidents (db\<lparr>incidents := map (\<lambda>r. if incident_pk r = k
                                        then resolve clk ongoing else r) (incidents db)\<rparr>))"
    and r: "resolved_at i = Some r"
  from i have "i = resolve clk ongoing \<or> i \<in> set (incidents db)" by auto
  then show "duration i = Some (int_total_seconds (r - started_at i))"
  proof
    assume "i = resolve clk ongoing"
    with r show ?thesis by (simp add: resolve_recorded)
  next
    assume "i \<in> set (incidents db)"
    with assms r show ?thesis by (simp add: durations_recorded_def)
  qed
qed

lemma update_durations_recorded:
  assumes "durations_recorded db"
  shows "durations_recorded (update db call)"
proof -
  obtain clk monitor up where call: "call = (clk, monitor, up)" by (cases call) auto
  have new: "resolved_at (new_incident clk db monitor) = None" by (simp add: new_incident_def)
  from update_cases [of db clk monitor up] show ?thesis
  proof (elim disjE conjE exE)
    assume "update db (clk, monitor, up) = db"
    with assms call show ?thesis by simp
  next
    assume "update db (clk, monitor, up) =
           db\<lparr>incidents := incidents db @ [new_incident clk db monitor],
              incidents_seq := incidents_seq db + 1\<rparr>"
    with call durations_recorded_append [OF assms new] show ?thesis by simp
  next
    fix ongoing
    assume "update db (clk, monitor, up) =
           db\<lparr>incidents := map (\<lambda>r. if incident_pk r = incident_pk ongoing
                                   then resolve clk ongoing else r) (incidents db)\<rparr>"
    with call durations_recorded_map [OF assms] show ?thesis by simp
  qed
qed

lemma replay_durations_recorded:
  "durations_recorded db \<Longrightarrow> durations_recorded (replay db calls)"
  unfolding replay_def
  by (induction calls arbitrary: db) (simp_all add: update_durations_recorded)

text \<open>
  Claim C5, as the code has it. In every database that calls of \<open>handle_incident\<close> lead
  to, a resolved incident has as its duration the seconds from its start to its
  resolution, truncated toward zero to a whole number; when the resolution is not earlier
  than the start, the duration is not negative and is less than one second short of the
  difference.
\<close>

theorem resolved_duration:
  assumes "durations_recorded db"
    and "i \<in> set (incidents (replay db calls))"
    and "resolved_at i = Some r"
  shows "duration i = Some (int_total_seconds (r - started_at i))
         \<and> (started_at i \<le> r \<longrightarrow>
              0 \<le> int_total_seconds (r - started_at i)
              \<and> int_total_seconds (r - started_at i) * 1000000 \<le> r - started_at i
              \<and> r - started_at i < (int_total_seconds (r - started_at i) + 1) * 1000000)"
proof -
  from assms(1) have "durations_recorded (replay db calls)"
    by (rule replay_durations_recorded)
  with assms(2,3) have "duration i = Some (int_total_seconds (r - started_at i))"
    by (simp add: durations_recorded_def)
  moreover have "started_at i \<le> r \<longrightarrow>
              0 \<le> int_total_seconds (r - started_at i)
              \<and> int_total_seconds (r - started_at i) * 1000000 \<le> r - started_at i
              \<and> r - started_at i < (int_total_seconds (r - started_at i) + 1) * 1000000"
    using int_total_seconds_bounds [of "r - started_at i"] by simp
  ultimately show ?thesis by simp
qed

theorem resolved_duration_witness:
  "durations_recorded empty_database
   \<and> \<lparr>incident_pk = 1, monitor_id = 1, started_at = 0, resolved_at = Some 60000000,
       duration = Some 60, alert_sent = False\<rparr> \<in> set (incidents (replay empty_database down_then_up))
   \<and> int_total_seconds (60000000 - 0) = 60"
proof -
  let ?i = "\<lparr>incident_pk = 1, monitor_id = 1, started_at = 0, resolved_at = Some 60000000,
       duration = Some 60, alert_sent = False\<rparr>"
  have inv: "durations_recorded empty_database"
    by (simp add: durations_recorded_def empty_database_def)
  have mem: "?i \<in> set (incidents (replay empty_database down_then_up))"
    by (simp add: replay_once_value)
  have res: "resolved_at ?i = Some 60000000" by simp
  from resolved_duration [OF inv mem res] inv mem show ?thesis by simp
qed

text \<open>
  The stored duration is not the difference of the two timestamps when that is not a whole
  number of seconds (1 for 1.5 s), and it is negative when the worker's clock at the
  resolution is behind the server's clock at the start (-2).
\<close>

theorem resolved_duration_counterexample:
  "incidents (replay empty_database skewed_calls) =
     [\<lparr>incident_pk = 1, monitor_id = 1, started_at = 0, resolved_at = Some 1500000,
       duration = Some 1, alert_sent = False\<rparr>,
      \<lparr>incident_pk = 2, monitor_id = 2, started_at = 10000000, resolved_at = Some 8000000,
       duration = Some (- 2), alert_sent = False\<rparr>]
   \<and> (1 :: int) * 1000000 \<noteq> 1500000 - 0
   \<and> \<not> (0 :: int) \<le> - 2"
  by (simp add: replay_def update_def handle_incident_def ongoing_query_def ongoing_rows_def
        order_by_desc_def new_incident_def resolve_def int_total_seconds_def
        empty_database_def skewed_calls_def at_times_def example_monitor_def Let_def)

section \<open>Properties of the cycle\<close>

lemma check_all_active_monitors_broadcasts:
  "broadcasts (check_all_active_monitors env w) = broadcasts w
   \<and> ws_manager (check_all_active_monitors env w) = ws_manager w"
  by (simp add: check_all_active_monitors_def Let_def)

text \<open>
  Claim C1, evaluated on the code. A cycle over one active monitor probes it and stores its
  result, and passes no event to \<open>ws_manager.broadcast\<close>: the list of broadcast events is
  as empty after the cycle as before.
\<close>

theorem cycle_signals_no_broadcast:
  "filter is_active (api_monitors (world_db example_world)) = [example_monitor 1 10]
   \<and> health_checks (world_db (check_all_active_monitors example_environment example_world)) =
       [\<lparr>health_check_pk = 1, hc_monitor_id = 1, hc_status_code = Some 200,
         hc_response_time = Some 12, hc_is_up = True, hc_error_message = None,
         checked_at = 0\<rparr>]
   \<and> broadcasts (check_all_active_monitors example_environment example_world) = []"
  by (simp add: check_all_active_monitors_def perform_health_check_def save_health_check_def
        check_api_def initial_result_def request_of_def handle_incident_def ongoing_query_def
        ongoing_rows_def order_by_desc_def example_world_def example_environment_def
        example_monitor_def empty_database_def at_times_def Let_def)

end
